theory Spec2Isabelle
  imports Complex_Main
begin

section \<open>The pocket classifier of \<open>mltoolbox/pocket_classifier.py\<close>\<close>

text \<open>
  The module holds two classes, \<open>Pocket\<close> and \<open>PocketClassifier\<close>. Their numeric
  fields are numpy arrays, which are mutable objects: \<open>self.weights[0] += update\<close>
  writes into the array that \<open>self.weights\<close> refers to, and
  \<open>self.pocket.best_weights = self.weights\<close> stores a reference, not a copy. The
  model therefore keeps the arrays in a store indexed by addresses, and the two fields
  hold addresses.

  Numbers are modelled as \<open>real\<close>, the "real-valued attributes" of the data model.
  Sums and products are therefore exact, where numpy computes them in double precision
  (and in 64-bit integers on samples given as integers): rounding, underflow, overflow
  and wrap-around are not modelled. The results below that depend on the value of a sum
  are about runs in which every sum is an exact zero on all-zero weights or lies far
  from zero; the others use no fact of arithmetic.
\<close>

subsection \<open>Data\<close>

datatype py_error = KeyError | ValueError | IndexError | TypeError

type_synonym addr = nat

type_synonym ndarray = "real list"

record Pocket =
  best_weights :: addr
  misclassify_count :: int

record 'a PocketClassifier =
  arrays :: "addr \<Rightarrow> ndarray"
  pocket :: Pocket
  weights :: addr
  misclassify_record :: "int list"
  label_map :: "int \<rightharpoonup> 'a"
  reversed_label_map :: "'a \<rightharpoonup> int"

text \<open>\<open>np.zeros(n)\<close>, for \<open>n \<ge> 0\<close>.\<close>

definition zeros :: "nat \<Rightarrow> ndarray" where
  "zeros n = replicate n 0"

text \<open>
  \<open>Pocket.__init__\<close> and \<open>PocketClassifier.__init__\<close>. Two arrays are allocated, the
  pocket's at address 0 and the classifier's at address 1. \<open>np.zeros\<close> raises
  \<open>ValueError\<close> on a negative length. The two dictionaries are built from
  \<open>class_labels[0]\<close> and \<open>class_labels[1]\<close>; in a dictionary display a later key
  overrides an equal earlier one, as a later map update does.
\<close>

definition init :: "int \<Rightarrow> 'a \<times> 'a \<Rightarrow> py_error + 'a PocketClassifier" where
  "init number_of_attributes class_labels =
     (if number_of_attributes + 1 < 0 then Inl ValueError
      else Inr \<lparr> arrays = (\<lambda>_. [])(0 := zeros (nat (number_of_attributes + 1)),
                                    1 := zeros (nat (number_of_attributes + 1))),
                 pocket = \<lparr> best_weights = 0, misclassify_count = - 1 \<rparr>,
                 weights = 1,
                 misclassify_record = [],
                 label_map = [1 \<mapsto> fst class_labels, - 1 \<mapsto> snd class_labels],
                 reversed_label_map = [fst class_labels \<mapsto> 1, snd class_labels \<mapsto> - 1] \<rparr>)"

subsection \<open>The numpy operations the module calls\<close>

text \<open>
  \<open>np.inner(a, b)\<close> for two one-dimensional arrays: the sum of the products (exact
  here, rounded in numpy), and \<open>ValueError\<close> when the lengths differ.
\<close>

definition inner :: "real list \<Rightarrow> ndarray \<Rightarrow> py_error + real" where
  "inner a b =
     (if length a = length b then Inr (sum_list (map2 (*) a b)) else Inl ValueError)"

text \<open>
  \<open>np.inner(rows, b)\<close> for a list of rows and a one-dimensional array. The list is
  converted to an array first: the empty list becomes a one-dimensional array of length
  0, so that the result is the scalar 0 when \<open>b\<close> is empty too and \<open>ValueError\<close>
  otherwise; rows of different lengths do not form an array (\<open>ValueError\<close>); rows of one
  length form a two-dimensional array, whose last dimension must be the length of \<open>b\<close>,
  and the result has one entry per row (an exact sum here, a rounded one in numpy).
\<close>

datatype inner_result = Scalar real | Vector "real list"

definition inner_rows :: "real list list \<Rightarrow> ndarray \<Rightarrow> py_error + inner_result" where
  "inner_rows rows b =
     (if rows = [] then (if b = [] then Inr (Scalar 0) else Inl ValueError)
      else if list_ex (\<lambda>r. length r \<noteq> length (hd rows)) rows then Inl ValueError
      else if length (hd rows) \<noteq> length b then Inl ValueError
      else Inr (Vector (map (\<lambda>r. sum_list (map2 (*) r b)) rows)))"

text \<open>\<open>np.where(x >= 0.0, 1, -1)\<close> on one number.\<close>

definition where_ge0 :: "real \<Rightarrow> int" where
  "where_ge0 x = (if x \<ge> 0 then 1 else - 1)"

text \<open>A list comprehension \<open>[m[k] for k in ks]\<close> over a dictionary: \<open>KeyError\<close> at the
  first key that is missing.\<close>

fun lookup_all :: "('k \<rightharpoonup> 'v) \<Rightarrow> 'k list \<Rightarrow> py_error + 'v list" where
  "lookup_all m [] = Inr []"
| "lookup_all m (k # ks) =
     (case m k of
        None \<Rightarrow> Inl KeyError
      | Some v \<Rightarrow> (case lookup_all m ks of Inl e \<Rightarrow> Inl e | Inr vs \<Rightarrow> Inr (v # vs)))"

subsection \<open>\<open>_linear_combination\<close>\<close>

text \<open>\<open>self.weights[1:]\<close> is \<open>drop 1\<close> of the array; a slice never raises.\<close>

definition linear_combination :: "'a PocketClassifier \<Rightarrow> real list \<Rightarrow> py_error + real" where
  "linear_combination self sample = inner sample (drop 1 (arrays self (weights self)))"

text \<open>The same method called with a list of samples, as \<open>classify\<close> does.\<close>

definition linear_combination_rows ::
  "'a PocketClassifier \<Rightarrow> real list list \<Rightarrow> py_error + inner_result" where
  "linear_combination_rows self new_data =
     inner_rows new_data (drop 1 (arrays self (weights self)))"

subsection \<open>\<open>train\<close>\<close>

text \<open>
  The body of the inner loop, for one \<open>(sample, target)\<close> pair. Both augmented
  assignments write into the array at \<open>self.weights\<close>; \<open>self.weights[0]\<close> raises
  \<open>IndexError\<close> on an array of length 0. The result is the new value of the local
  \<open>misclassifies\<close>, or the exception, with the state as it is then. The products and
  sums that update the weights are exact here.
\<close>

definition train_sample ::
  "real list \<Rightarrow> int \<Rightarrow> int \<Rightarrow> 'a PocketClassifier \<Rightarrow> (py_error + int) \<times> 'a PocketClassifier" where
  "train_sample sample target misclassifies self =
     (case linear_combination self sample of
        Inl e \<Rightarrow> (Inl e, self)
      | Inr lc \<Rightarrow>
          (let update = target - where_ge0 lc;
               w = arrays self (weights self);
               w1 = take 1 w @ map2 (+) (drop 1 w) (map ((*) (of_int update)) sample);
               self1 = self\<lparr>arrays := (arrays self)(weights self := w1)\<rparr>
           in case w1 of
                [] \<Rightarrow> (Inl IndexError, self1)
              | w0 # ws \<Rightarrow>
                  (Inr (misclassifies + (if update \<noteq> 0 then 1 else 0)),
                   self1\<lparr>arrays := (arrays self1)(weights self1 := (w0 + of_int update) # ws)\<rparr>)))"

text \<open>The inner loop \<open>for sample, target in zip(samples, transferred_labels)\<close>.\<close>

fun train_samples ::
  "(real list \<times> int) list \<Rightarrow> int \<Rightarrow> 'a PocketClassifier \<Rightarrow> (py_error + int) \<times> 'a PocketClassifier" where
  "train_samples [] misclassifies self = (Inr misclassifies, self)"
| "train_samples ((sample, target) # rest) misclassifies self =
     (case train_sample sample target misclassifies self of
        (Inl e, self1) \<Rightarrow> (Inl e, self1)
      | (Inr misclassifies1, self1) \<Rightarrow> train_samples rest misclassifies1 self1)"

text \<open>
  The comparison with the pocket after a pass. The assignment
  \<open>self.pocket.best_weights = self.weights\<close> stores the address of the weight array.
\<close>

definition update_pocket :: "int \<Rightarrow> 'a PocketClassifier \<Rightarrow> 'a PocketClassifier" where
  "update_pocket misclassifies self =
     (if misclassify_count (pocket self) = - 1
         \<or> misclassify_count (pocket self) > misclassifies
         \<or> misclassifies = 0
      then self\<lparr>pocket := (pocket self)\<lparr>best_weights := weights self,
                                         misclassify_count := misclassifies\<rparr>\<rparr>
      else self)"

text \<open>One pass up to and including the pocket comparison: the pass's count of
  misclassifications and the state.\<close>

definition train_pass ::
  "(real list \<times> int) list \<Rightarrow> 'a PocketClassifier \<Rightarrow> (py_error + int) \<times> 'a PocketClassifier" where
  "train_pass pairs self =
     (case train_samples pairs 0 self of
        (Inl e, self1) \<Rightarrow> (Inl e, self1)
      | (Inr misclassifies, self1) \<Rightarrow> (Inr misclassifies, update_pocket misclassifies self1))"

text \<open>\<open>self.misclassify_record.append(self.pocket.misclassify_count)\<close>\<close>

definition append_record :: "'a PocketClassifier \<Rightarrow> 'a PocketClassifier" where
  "append_record self =
     self\<lparr>misclassify_record := misclassify_record self @ [misclassify_count (pocket self)]\<rparr>"

text \<open>The outer loop \<open>for _ in range(max_iterator)\<close>, by the number of passes that
  remain. The result is the exception raised, if any, and the state.\<close>

fun train_loop ::
  "nat \<Rightarrow> (real list \<times> int) list \<Rightarrow> 'a PocketClassifier \<Rightarrow> py_error option \<times> 'a PocketClassifier" where
  "train_loop 0 pairs self = (None, self)"
| "train_loop (Suc n) pairs self =
     (case train_pass pairs self of
        (Inl e, self1) \<Rightarrow> (Some e, self1)
      | (Inr misclassifies, self1) \<Rightarrow>
          if misclassifies = 0 then (None, self1)
          else train_loop n pairs (append_record self1))"

text \<open>\<open>range(max_iterator)\<close> is empty for \<open>max_iterator \<le> 0\<close>, which is what \<open>nat\<close>
  gives.\<close>

definition train ::
  "'a PocketClassifier \<Rightarrow> real list list \<Rightarrow> 'a list \<Rightarrow> int \<Rightarrow> py_error option \<times> 'a PocketClassifier" where
  "train self samples labels max_iterator =
     (case lookup_all (reversed_label_map self) labels of
        Inl e \<Rightarrow> (Some e, self)
      | Inr transferred_labels \<Rightarrow>
          train_loop (nat max_iterator) (zip samples transferred_labels) self)"

subsection \<open>\<open>classify\<close>\<close>

text \<open>
  The linear combination is computed first, then \<open>self.weights[0]\<close> is read. Iterating
  over the result of \<open>np.where\<close> raises \<open>TypeError\<close> when it is zero-dimensional.
\<close>

definition classify :: "'a PocketClassifier \<Rightarrow> real list list \<Rightarrow> py_error + 'a list" where
  "classify self new_data =
     (case linear_combination_rows self new_data of
        Inl e \<Rightarrow> Inl e
      | Inr lc \<Rightarrow>
          (case arrays self (weights self) of
             [] \<Rightarrow> Inl IndexError
           | w0 # _ \<Rightarrow>
               (case lc of
                  Scalar x \<Rightarrow> Inl TypeError
                | Vector xs \<Rightarrow>
                    lookup_all (label_map self) (map (\<lambda>x. where_ge0 (x + w0)) xs))))"

subsection \<open>The passes of a call\<close>

text \<open>
  The claims speak of the state after each completed pass. \<open>completed_passes\<close> follows
  the outer loop of \<open>train_loop\<close> and lists, for every pass that ran to its pocket
  comparison, the pass's count of misclassifications and the state just after the
  comparison (before the append to the record). A pass that raises is not completed.
\<close>

fun completed_passes ::
  "nat \<Rightarrow> (real list \<times> int) list \<Rightarrow> 'a PocketClassifier \<Rightarrow> (int \<times> 'a PocketClassifier) list" where
  "completed_passes 0 pairs self = []"
| "completed_passes (Suc n) pairs self =
     (case train_pass pairs self of
        (Inl e, self1) \<Rightarrow> []
      | (Inr misclassifies, self1) \<Rightarrow>
          (misclassifies, self1) #
          (if misclassifies = 0 then [] else completed_passes n pairs (append_record self1)))"

definition train_passes ::
  "'a PocketClassifier \<Rightarrow> real list list \<Rightarrow> 'a list \<Rightarrow> int \<Rightarrow> (int \<times> 'a PocketClassifier) list" where
  "train_passes self samples labels max_iterator =
     (case lookup_all (reversed_label_map self) labels of
        Inl e \<Rightarrow> []
      | Inr transferred_labels \<Rightarrow>
          completed_passes (nat max_iterator) (zip samples transferred_labels) self)"

subsection \<open>Sequences of calls\<close>

text \<open>
  A caller may call \<open>train\<close> several times on one classifier (catching an exception, if
  one is raised, and going on). A call is its three arguments.
\<close>

type_synonym 'a train_call = "real list list \<times> 'a list \<times> int"

fun train_calls :: "'a train_call list \<Rightarrow> 'a PocketClassifier \<Rightarrow> 'a PocketClassifier" where
  "train_calls [] self = self"
| "train_calls ((samples, labels, max_iterator) # calls) self =
     train_calls calls (snd (train self samples labels max_iterator))"

text \<open>The completed passes of all the calls, in the order in which they ran.\<close>

fun calls_passes ::
  "'a train_call list \<Rightarrow> 'a PocketClassifier \<Rightarrow> (int \<times> 'a PocketClassifier) list" where
  "calls_passes [] self = []"
| "calls_passes ((samples, labels, max_iterator) # calls) self =
     train_passes self samples labels max_iterator
     @ calls_passes calls (snd (train self samples labels max_iterator))"

subsection \<open>The example of the class docstring\<close>

definition example_samples :: "real list list" where
  "example_samples =
     [[5.1, 3.5, 1.4, 0.2],
      [4.9, 3.0, 1.4, 0.2],
      [4.7, 3.2, 1.3, 0.2],
      [4.6, 3.1, 1.5, 0.2],
      [5.0, 3.6, 1.4, 0.2],
      [5.4, 3.9, 1.7, 0.4],
      [7.0, 3.2, 4.7, 1.4],
      [6.4, 3.2, 4.5, 1.5],
      [6.9, 3.1, 4.9, 1.5],
      [5.5, 2.3, 4.0, 1.3],
      [6.5, 2.8, 4.6, 1.5],
      [5.7, 2.8, 4.5, 1.3]]"

definition example_labels :: "int list" where
  "example_labels = [- 1, - 1, - 1, - 1, - 1, - 1, 1, 1, 1, 1, 1, 1]"

definition example_new_data :: "real list list" where
  "example_new_data = [[6.3, 3.3, 4.7, 1.6], [4.6, 3.4, 1.4, 0.3]]"

subsection \<open>Linear separability\<close>

text \<open>
  The specification's notion, not the code's: the boundary with normal \<open>w\<close> and offset
  \<open>b\<close> separates a labelled data set when every sample with the first class label lies
  strictly on its positive side and every sample with the second strictly on its
  negative side.
\<close>

definition separated_by ::
  "real list \<Rightarrow> real \<Rightarrow> 'a \<times> 'a \<Rightarrow> real list list \<Rightarrow> 'a list \<Rightarrow> bool" where
  "separated_by w b class_labels samples labels =
     list_all2
       (\<lambda>x l. (l = fst class_labels \<and> sum_list (map2 (*) x w) + b > 0)
              \<or> (l = snd class_labels \<and> sum_list (map2 (*) x w) + b < 0))
       samples labels"

subsection \<open>The pocket's count against the passes so far\<close>

text \<open>
  \<open>hist\<close> lists the misclassification counts of the passes completed so far, oldest
  first. The count \<open>c\<close> stored in the pocket tracks them when it is the sentinel before
  any pass, and their minimum afterwards.
\<close>

definition pocket_tracks :: "int list \<Rightarrow> int \<Rightarrow> bool" where
  "pocket_tracks hist c \<longleftrightarrow>
     (\<forall>m\<in>set hist. 0 \<le> m) \<and> (if hist = [] then c = - 1 else c = Min (set hist))"

section \<open>Properties\<close>

subsection \<open>Dictionary lookups\<close>

lemma lookup_all_missing:
  "k \<in> set ks \<Longrightarrow> m k = None \<Longrightarrow> lookup_all m ks = Inl KeyError"
proof (induction ks)
  case Nil
  then show ?case by simp
next
  case (Cons a ks)
  show ?case
  proof (cases "m a")
    case None
    then show ?thesis by simp
  next
    case (Some v)
    with Cons.prems have "k \<in> set ks" by auto
    with Cons.IH Cons.prems(2) have "lookup_all m ks = Inl KeyError" by simp
    with Some show ?thesis by simp
  qed
qed

lemma lookup_all_present:
  "set ks \<subseteq> dom m \<Longrightarrow> lookup_all m ks = Inr (map (\<lambda>k. the (m k)) ks)"
  by (induction ks) auto

subsection \<open>Calls of \<open>train\<close> that run no pass\<close>

text \<open>
  Claim C10. When some element of \<open>labels\<close> is neither of the two class labels, the
  translation of the labels raises \<open>KeyError\<close>: \<open>train\<close> ends with that exception,
  no pass has run, and the state (weights, pocket, record) is the state before the call.
\<close>

theorem train_unknown_label:
  assumes "reversed_label_map self = [L0 \<mapsto> 1, L1 \<mapsto> - 1]"
    and "l \<in> set labels" and "l \<noteq> L0" and "l \<noteq> L1"
  shows "train self samples labels max_iterator = (Some KeyError, self)
         \<and> train_passes self samples labels max_iterator = []"
proof -
  from assms(1,3,4) have "reversed_label_map self l = None" by simp
  with assms(2) have "lookup_all (reversed_label_map self) labels = Inl KeyError"
    by (rule lookup_all_missing)
  then show ?thesis by (simp add: train_def train_passes_def)
qed

theorem train_unknown_label_witness:
  "train (projr (init 1 (''A'', ''B''))) [[1], [2]] [''A'', ''C''] 10
     = (Some KeyError, projr (init 1 (''A'', ''B'')))
   \<and> train_passes (projr (init 1 (''A'', ''B''))) [[1], [2]] [''A'', ''C''] 10 = []"
  using train_unknown_label [of "projr (init 1 (''A'', ''B''))" "''A''" "''B''" "''C''"
      "[''A'', ''C'']" "[[1], [2]]" 10]
  by (simp add: init_def)

text \<open>
  Claim C9. With every label in the label domain and \<open>max_iterator \<le> 0\<close>, \<open>train\<close>
  runs no pass and returns with the whole state as it was: weights, pocket (weights and
  count) and record.
\<close>

theorem train_no_pass:
  assumes "set labels \<subseteq> dom (reversed_label_map self)" and "max_iterator \<le> 0"
  shows "train self samples labels max_iterator = (None, self)
         \<and> train_passes self samples labels max_iterator = []"
  using assms by (simp add: train_def train_passes_def lookup_all_present)

theorem train_no_pass_witness:
  "train (projr (init 1 (''A'', ''B''))) [[1], [2]] [''B'', ''A''] 0
     = (None, projr (init 1 (''A'', ''B'')))
   \<and> train_passes (projr (init 1 (''A'', ''B''))) [[1], [2]] [''B'', ''A''] 0 = []"
  using train_no_pass [of "[''B'', ''A'']" "projr (init 1 (''A'', ''B''))" 0 "[[1], [2]]"]
  by (simp add: init_def)

subsection \<open>The constructor\<close>

lemma init_fields:
  assumes "init d cl = Inr self"
  shows "arrays self (weights self) = zeros (nat (d + 1))"
    and "arrays self (best_weights (pocket self)) = zeros (nat (d + 1))"
    and "misclassify_count (pocket self) = - 1"
    and "misclassify_record self = []"
    and "label_map self = [1 \<mapsto> fst cl, - 1 \<mapsto> snd cl]"
    and "reversed_label_map self = [fst cl \<mapsto> 1, snd cl \<mapsto> - 1]"
    and "0 \<le> d + 1"
  using assms by (auto simp: init_def split: if_splits)

subsection \<open>Inner products\<close>

lemma sum_list_map2_zeros: "sum_list (map2 (*) r (replicate n (0::real))) = 0"
proof (induction r arbitrary: n)
  case Nil
  then show ?case by simp
next
  case (Cons a r)
  then show ?case by (cases n) simp_all
qed

lemma sum_list_map2_nth:
  "length x = length v \<Longrightarrow> sum_list (map2 (*) x v) = (\<Sum>j<length x. x ! j * (v ! j :: real))"
  by (simp add: sum_list_sum_nth atLeast0LessThan)

lemma inner_rows_Vector:
  assumes "rows \<noteq> []" and "\<forall>r\<in>set rows. length r = length b"
  shows "inner_rows rows b = Inr (Vector (map (\<lambda>r. sum_list (map2 (*) r b)) rows))"
proof -
  from assms have "length (hd rows) = length b" by simp
  moreover from assms this have "\<not> list_ex (\<lambda>r. length r \<noteq> length (hd rows)) rows"
    by (simp add: list_ex_iff)
  ultimately show ?thesis using assms(1) by (simp add: inner_rows_def)
qed

lemma lookup_all_map_total:
  "(\<And>x. x \<in> set xs \<Longrightarrow> m (f x) = Some (g x)) \<Longrightarrow> lookup_all m (map f xs) = Inr (map g xs)"
  by (induction xs) auto

subsection \<open>\<open>classify\<close>\<close>

text \<open>
  On the model's exact sums, \<open>classify\<close> on a non-empty list of samples of length
  \<open>d\<close> thresholds \<open>dot(sample, weights[1:]) + weights[0]\<close> at 0, with the array at
  \<open>self.weights\<close>; it does not read the pocket.
\<close>

lemma classify_dot:
  assumes "new_data \<noteq> []"
    and "\<forall>x\<in>set new_data. length x = d"
    and "length (arrays self (weights self)) = d + 1"
    and "label_map self = [1 \<mapsto> L0, - 1 \<mapsto> L1]"
  shows "classify self new_data =
           Inr (map (\<lambda>x. if (\<Sum>j<d. x ! j * arrays self (weights self) ! (j + 1))
                              + arrays self (weights self) ! 0 \<ge> 0
                         then L0 else L1) new_data)"
proof -
  define w where "w = arrays self (weights self)"
  from assms(3) obtain w0 ws where w: "w = w0 # ws" and ws: "length ws = d"
    unfolding w_def by (cases "arrays self (weights self)") auto
  have rows: "linear_combination_rows self new_data
                = Inr (Vector (map (\<lambda>r. sum_list (map2 (*) r ws)) new_data))"
    using assms(1,2) ws w
    by (simp add: linear_combination_rows_def w_def [symmetric] inner_rows_Vector)
  have dot: "sum_list (map2 (*) x ws) = (\<Sum>j<d. x ! j * w ! (j + 1))" if "x \<in> set new_data" for x
    using that assms(2) ws w by (simp add: sum_list_map2_nth)
  have "lookup_all (label_map self) (map (\<lambda>x. where_ge0 (sum_list (map2 (*) x ws) + w0)) new_data)
          = Inr (map (\<lambda>x. if (\<Sum>j<d. x ! j * w ! (j + 1)) + w ! 0 \<ge> 0 then L0 else L1) new_data)"
    by (rule lookup_all_map_total) (simp add: assms(4) where_ge0_def dot w)
  with rows w have "classify self new_data =
           Inr (map (\<lambda>x. if (\<Sum>j<d. x ! j * w ! (j + 1)) + w ! 0 \<ge> 0 then L0 else L1) new_data)"
    by (simp add: classify_def w_def [symmetric] comp_def)
  then show ?thesis by (simp add: w_def)
qed

lemma classify_ignores_pocket:
  "classify (self\<lparr>pocket := p\<rparr>) new_data = classify self new_data"
  by (simp add: classify_def linear_combination_rows_def
      split: sum.split list.split inner_result.split)

text \<open>
  Claim C2 does not hold of the code at the empty input sequence, for which it promises
  the empty sequence of labels. With four attributes, \<open>np.inner\<close> gets a
  one-dimensional array of length 0 and the weight slice of length 4, and raises
  \<open>ValueError\<close>. No state makes \<open>classify([])\<close> return: when the weight slice is
  empty too, the linear combination is a scalar, and either \<open>self.weights[0]\<close> or the
  iteration over the zero-dimensional result of \<open>np.where\<close> raises.
\<close>

theorem classify_empty_raises:
  "classify (projr (init 4 (''A'', ''B''))) [] = Inl ValueError
   \<and> classify self [] =
        Inl (if 1 < length (arrays self (weights self)) then ValueError
             else if arrays self (weights self) = [] then IndexError else TypeError)"
proof -
  have "classify (projr (init 4 (''A'', ''B''))) [] = Inl ValueError"
    by (simp add: init_def classify_def linear_combination_rows_def inner_rows_def zeros_def)
  moreover have "classify self [] =
        Inl (if 1 < length (arrays self (weights self)) then ValueError
             else if arrays self (weights self) = [] then IndexError else TypeError)"
  proof (cases "arrays self (weights self)")
    case Nil
    then show ?thesis
      by (simp add: classify_def linear_combination_rows_def inner_rows_def)
  next
    case (Cons w0 ws)
    then show ?thesis
      by (cases ws) (simp_all add: classify_def linear_combination_rows_def inner_rows_def)
  qed
  ultimately show ?thesis by simp
qed

text \<open>
  Claim C7. For \<open>d > 0\<close> and two distinct labels the constructor succeeds, the weight
  array is \<open>d + 1\<close> zeros, and \<open>classify\<close> on samples of length \<open>d\<close> returns the
  first label for every one of them: each sum is 0 and \<open>0 \<ge> 0.0\<close> selects code 1.
\<close>

theorem fresh_classifier_first_label:
  assumes "0 < d" and "L0 \<noteq> L1"
  shows "\<exists>self. init d (L0, L1) = Inr self
           \<and> arrays self (weights self) = replicate (nat d + 1) 0
           \<and> (\<forall>new_data. new_data \<noteq> [] \<and> (\<forall>x\<in>set new_data. length x = nat d)
                 \<longrightarrow> classify self new_data = Inr (replicate (length new_data) L0))"
proof -
  from assms(1) obtain self where self: "init d (L0, L1) = Inr self"
    by (simp add: init_def)
  from assms(1) have n: "nat (d + 1) = nat d + 1" by simp
  have w: "arrays self (weights self) = replicate (nat d + 1) 0"
    using init_fields(1) [OF self] n by (simp add: zeros_def)
  have lm: "label_map self = [1 \<mapsto> L0, - 1 \<mapsto> L1]"
    using init_fields(5) [OF self] by simp
  have "classify self new_data = Inr (replicate (length new_data) L0)"
    if "new_data \<noteq> []" and "\<forall>x\<in>set new_data. length x = nat d" for new_data
  proof -
    have "classify self new_data =
           Inr (map (\<lambda>x. if (\<Sum>j<nat d. x ! j * arrays self (weights self) ! (j + 1))
                              + arrays self (weights self) ! 0 \<ge> 0
                         then L0 else L1) new_data)"
      using classify_dot [OF that, of self L0 L1] w lm by simp
    also have "\<dots> = Inr (map (\<lambda>x. L0) new_data)"
      by (simp add: w)
    finally show ?thesis by (simp add: map_replicate_const)
  qed
  with self w show ?thesis by blast
qed

theorem fresh_classifier_first_label_witness:
  "arrays (projr (init 2 (''A'', ''B''))) (weights (projr (init 2 (''A'', ''B'')))) = [0, 0, 0]
   \<and> classify (projr (init 2 (''A'', ''B''))) [[1, 2], [- 3, 4]] = Inr [''A'', ''A'']"
  using fresh_classifier_first_label [of 2 "''A''" "''B''"]
  by (auto simp: numeral_2_eq_2)

subsection \<open>Training on no samples\<close>

text \<open>
  Claim C8. On a freshly constructed classifier, \<open>train\<close> with no samples, no labels
  and \<open>max_iterator \<ge> 1\<close> returns normally; no array is written; exactly one pass
  completes, with 0 misclassifications; the pocket then reads all-zero weights with
  count 0; and the record stays empty.
\<close>

theorem train_empty_samples:
  assumes "init d cl = Inr self" and "1 \<le> max_iterator"
  shows "fst (train self [] [] max_iterator) = None
         \<and> arrays (snd (train self [] [] max_iterator)) = arrays self
         \<and> weights (snd (train self [] [] max_iterator)) = weights self
         \<and> map fst (train_passes self [] [] max_iterator) = [0]
         \<and> arrays (snd (train self [] [] max_iterator))
              (best_weights (pocket (snd (train self [] [] max_iterator)))) = zeros (nat (d + 1))
         \<and> misclassify_count (pocket (snd (train self [] [] max_iterator))) = 0
         \<and> misclassify_record (snd (train self [] [] max_iterator)) = []"
proof -
  from assms(2) obtain n where n: "nat max_iterator = Suc n"
    by (cases "nat max_iterator") auto
  have pass: "train_pass [] self = (Inr 0, update_pocket 0 self)"
    by (simp add: train_pass_def)
  have t: "train self [] [] max_iterator = (None, update_pocket 0 self)"
    by (simp add: train_def n pass)
  have p: "train_passes self [] [] max_iterator = [(0, update_pocket 0 self)]"
    by (simp add: train_passes_def n pass)
  show ?thesis
    using init_fields(1,4) [OF assms(1)] by (simp add: t p update_pocket_def)
qed

theorem train_empty_samples_witness:
  "fst (train (projr (init 2 (''A'', ''B''))) [] [] 10) = None
   \<and> map fst (train_passes (projr (init 2 (''A'', ''B''))) [] [] 10) = [0]
   \<and> arrays (snd (train (projr (init 2 (''A'', ''B''))) [] [] 10))
        (best_weights (pocket (snd (train (projr (init 2 (''A'', ''B''))) [] [] 10)))) = [0, 0, 0]
   \<and> misclassify_count (pocket (snd (train (projr (init 2 (''A'', ''B''))) [] [] 10))) = 0
   \<and> misclassify_record (snd (train (projr (init 2 (''A'', ''B''))) [] [] 10)) = []"
proof -
  have i: "init 2 (''A'', ''B'') = Inr (projr (init 2 (''A'', ''B'')))"
    by (simp add: init_def)
  have z: "zeros (nat (2 + 1)) = [0, 0, 0]"
    by (simp add: zeros_def numeral_3_eq_3)
  have m: "(1::int) \<le> 10"
    by simp
  from train_empty_samples [OF i m, unfolded z] show ?thesis by blast
qed

subsection \<open>What a pass changes\<close>

lemma train_sample_frame:
  assumes "train_sample sample target m self = (r, self')"
  shows "pocket self' = pocket self" and "weights self' = weights self"
    and "misclassify_record self' = misclassify_record self"
    and "label_map self' = label_map self"
    and "reversed_label_map self' = reversed_label_map self"
  using assms
  by (auto simp: train_sample_def Let_def split: sum.splits list.splits)

lemma train_sample_count:
  "train_sample sample target m self = (Inr m', self') \<Longrightarrow> m \<le> m'"
  by (auto simp: train_sample_def Let_def split: sum.splits list.splits if_splits)

lemma train_samples_frame:
  "train_samples pairs m self = (r, self') \<Longrightarrow>
     pocket self' = pocket self \<and> weights self' = weights self
     \<and> misclassify_record self' = misclassify_record self
     \<and> label_map self' = label_map self
     \<and> reversed_label_map self' = reversed_label_map self"
proof (induction pairs m self rule: train_samples.induct)
  case (1 misclassifies self)
  then show ?case by simp
next
  case (2 sample target rest misclassifies self)
  obtain r1 s1 where ts: "train_sample sample target misclassifies self = (r1, s1)"
    by (cases "train_sample sample target misclassifies self")
  note fr = train_sample_frame [OF ts]
  show ?case
  proof (cases r1)
    case (Inl e)
    with ts "2.prems" fr show ?thesis by simp
  next
    case (Inr m1)
    with ts "2.prems" have "train_samples rest m1 s1 = (r, self')" by simp
    with "2.IH" [of r1 s1 m1] ts Inr fr show ?thesis by simp
  qed
qed

lemma train_samples_count:
  "train_samples pairs m self = (Inr m', self') \<Longrightarrow> m \<le> m'"
proof (induction pairs m self rule: train_samples.induct)
  case (1 misclassifies self)
  then show ?case by simp
next
  case (2 sample target rest misclassifies self)
  obtain r1 s1 where ts: "train_sample sample target misclassifies self = (r1, s1)"
    by (cases "train_sample sample target misclassifies self")
  show ?case
  proof (cases r1)
    case (Inl e)
    with ts "2.prems" show ?thesis by simp
  next
    case (Inr m1)
    with ts "2.prems" have "train_samples rest m1 s1 = (Inr m', self')" by simp
    with "2.IH" [of r1 s1 m1] ts Inr have "m1 \<le> m'" by simp
    moreover from ts Inr have "misclassifies \<le> m1" by (auto dest: train_sample_count)
    ultimately show ?thesis by simp
  qed
qed

lemma train_pass_Inl:
  assumes "train_pass pairs self = (Inl e, self')"
  shows "pocket self' = pocket self" and "misclassify_record self' = misclassify_record self"
    and "weights self' = weights self"
  using assms train_samples_frame [of pairs 0 self]
  by (auto simp: train_pass_def split: prod.splits sum.splits)

lemma train_pass_Inr:
  assumes "train_pass pairs self = (Inr m, self')"
  shows "0 \<le> m"
    and "misclassify_record self' = misclassify_record self"
    and "weights self' = weights self"
    and "misclassify_count (pocket self') =
           (if misclassify_count (pocket self) = - 1 \<or> misclassify_count (pocket self) > m \<or> m = 0
            then m else misclassify_count (pocket self))"
    and "best_weights (pocket self') =
           (if misclassify_count (pocket self) = - 1 \<or> misclassify_count (pocket self) > m \<or> m = 0
            then weights self else best_weights (pocket self))"
proof -
  from assms obtain s1 where ts: "train_samples pairs 0 self = (Inr m, s1)"
    and s': "self' = update_pocket m s1"
    by (auto simp: train_pass_def split: prod.splits sum.splits)
  from train_samples_count [OF ts] show "0 \<le> m" .
  note fr = train_samples_frame [OF ts]
  from fr s' show "misclassify_record self' = misclassify_record self"
    by (simp add: update_pocket_def)
  from fr s' show "weights self' = weights self"
    by (simp add: update_pocket_def)
  from fr s' show "misclassify_count (pocket self') =
           (if misclassify_count (pocket self) = - 1 \<or> misclassify_count (pocket self) > m \<or> m = 0
            then m else misclassify_count (pocket self))"
    by (simp add: update_pocket_def)
  from fr s' show "best_weights (pocket self') =
           (if misclassify_count (pocket self) = - 1 \<or> misclassify_count (pocket self) > m \<or> m = 0
            then weights self else best_weights (pocket self))"
    by (simp add: update_pocket_def)
qed

lemma append_record_fields:
  "pocket (append_record self) = pocket self"
  "weights (append_record self) = weights self"
  "arrays (append_record self) = arrays self"
  "misclassify_record (append_record self)
     = misclassify_record self @ [misclassify_count (pocket self)]"
  by (simp_all add: append_record_def)

lemma train_loop_record:
  "misclassify_record (snd (train_loop n pairs self)) =
     misclassify_record self
     @ map (\<lambda>(m, s). misclassify_count (pocket s))
         (filter (\<lambda>(m, s). m \<noteq> 0) (completed_passes n pairs self))"
proof (induction n arbitrary: self)
  case 0
  then show ?case by simp
next
  case (Suc n)
  obtain r s1 where tp: "train_pass pairs self = (r, s1)"
    by (cases "train_pass pairs self")
  show ?case
  proof (cases r)
    case (Inl e)
    with tp train_pass_Inl(2) [of pairs self e s1] show ?thesis by simp
  next
    case (Inr m)
    with tp have rec: "misclassify_record s1 = misclassify_record self"
      by (simp add: train_pass_Inr(2))
    show ?thesis
    proof (cases "m = 0")
      case True
      with tp Inr rec show ?thesis by simp
    next
      case False
      with tp Inr rec Suc.IH [of "append_record s1"] show ?thesis
        by (simp add: append_record_fields)
    qed
  qed
qed

lemma completed_passes_zero_last:
  "Suc i < length (completed_passes n pairs self) \<Longrightarrow>
     fst (completed_passes n pairs self ! i) \<noteq> 0"
proof (induction n arbitrary: self i)
  case 0
  then show ?case by simp
next
  case (Suc n)
  obtain r s1 where tp: "train_pass pairs self = (r, s1)"
    by (cases "train_pass pairs self")
  show ?case
  proof (cases r)
    case (Inl e)
    with tp Suc.prems show ?thesis by simp
  next
    case (Inr m)
    show ?thesis
    proof (cases "m = 0")
      case True
      with tp Inr Suc.prems show ?thesis by simp
    next
      case False
      with tp Inr have cp: "completed_passes (Suc n) pairs self
          = (m, s1) # completed_passes n pairs (append_record s1)" by simp
      show ?thesis
      proof (cases i)
        case 0
        with cp False show ?thesis by simp
      next
        case (Suc j)
        with cp Suc.prems have "Suc j < length (completed_passes n pairs (append_record s1))"
          by simp
        from Suc.IH [OF this] cp Suc show ?thesis by simp
      qed
    qed
  qed
qed

lemma filter_nonzero_butlast:
  assumes "\<And>i. Suc i < length ps \<Longrightarrow> fst (ps ! i) \<noteq> (0::int)"
  shows "filter (\<lambda>(m, s). m \<noteq> 0) ps
           = (if ps \<noteq> [] \<and> fst (last ps) = 0 then butlast ps else ps)"
  using assms
proof (induction ps rule: rev_induct)
  case Nil
  then show ?case by simp
next
  case (snoc x xs)
  have "fst (xs ! i) \<noteq> 0" if "i < length xs" for i
    using snoc.prems [of i] that by (simp add: nth_append)
  then have "\<forall>p\<in>set xs. fst p \<noteq> 0"
    by (metis in_set_conv_nth)
  then have "filter (\<lambda>(m, s). m \<noteq> 0) xs = xs"
    by (auto simp: filter_id_conv)
  then show ?case by (cases x) simp
qed

subsection \<open>Runs on concrete data\<close>

text \<open>The definitions that a run on concrete data unfolds.\<close>

lemmas run_defs =
  init_def zeros_def train_def train_passes_def train_pass_def train_sample_def
  update_pocket_def append_record_def linear_combination_def inner_def where_ge0_def
  classify_def linear_combination_rows_def inner_rows_def Let_def eval_nat_numeral

subsection \<open>The record of misclassifications\<close>

text \<open>
  Claim C4. A call of \<open>train\<close> appends to the record one entry for every completed
  pass but a last pass with zero misclassifications, which appends nothing; a pass with
  zero misclassifications can only be the last one, since the loop stops there; and the
  entry of a pass is the pocket's count as it stands just after that pass's comparison.
\<close>

theorem record_one_entry_per_pass:
  assumes "ps = train_passes self samples labels max_iterator"
    and "self' = snd (train self samples labels max_iterator)"
  shows "misclassify_record self' =
           misclassify_record self
           @ map (\<lambda>(m, s). misclassify_count (pocket s))
               (if ps \<noteq> [] \<and> fst (last ps) = 0 then butlast ps else ps)
         \<and> (\<forall>i. Suc i < length ps \<longrightarrow> fst (ps ! i) \<noteq> 0)
         \<and> length (misclassify_record self') =
             length (misclassify_record self) + length ps
             - (if ps \<noteq> [] \<and> fst (last ps) = 0 then 1 else 0)"
proof -
  have z: "\<forall>i. Suc i < length ps \<longrightarrow> fst (ps ! i) \<noteq> 0"
    unfolding assms(1) train_passes_def
    by (auto split: sum.splits dest: completed_passes_zero_last)
  have "misclassify_record self' =
           misclassify_record self
           @ map (\<lambda>(m, s). misclassify_count (pocket s)) (filter (\<lambda>(m, s). m \<noteq> 0) ps)"
    unfolding assms train_passes_def train_def
    by (simp add: train_loop_record split: sum.splits)
  with z have r: "misclassify_record self' =
           misclassify_record self
           @ map (\<lambda>(m, s). misclassify_count (pocket s))
               (if ps \<noteq> [] \<and> fst (last ps) = 0 then butlast ps else ps)"
    by (simp add: filter_nonzero_butlast)
  have "length (misclassify_record self') =
           length (misclassify_record self) + length ps
           - (if ps \<noteq> [] \<and> fst (last ps) = 0 then 1 else 0)"
  proof (cases ps)
    case Nil
    with r show ?thesis by simp
  next
    case (Cons p ps')
    have "length (butlast ps) = length ps - 1" by simp
    with r Cons show ?thesis by (simp del: length_butlast butlast.simps)
  qed
  with z r show ?thesis by blast
qed

theorem record_one_entry_per_pass_witness:
  "map fst (train_passes (projr (init 1 (''A'', ''B''))) [[1], [2], [3]] [''B'', ''B'', ''B''] 10)
     = [1, 0]
   \<and> misclassify_record
        (snd (train (projr (init 1 (''A'', ''B''))) [[1], [2], [3]] [''B'', ''B'', ''B''] 10)) = [1]"
  using record_one_entry_per_pass [OF refl refl,
      of "projr (init 1 (''A'', ''B''))" "[[1], [2], [3]]" "[''B'', ''B'', ''B'']" 10]
  by (simp add: run_defs)

subsection \<open>The pocket's count\<close>

lemma pocket_tracks_pass:
  assumes "pocket_tracks hist (misclassify_count (pocket self))"
    and "train_pass pairs self = (Inr m, self1)"
  shows "pocket_tracks (hist @ [m]) (misclassify_count (pocket self1))"
proof -
  note tp = train_pass_Inr [OF assms(2)]
  show ?thesis
  proof (cases "hist = []")
    case True
    with assms(1) tp(1,4) show ?thesis by (simp add: pocket_tracks_def)
  next
    case False
    with assms(1) have c: "misclassify_count (pocket self) = Min (set hist)"
      and nn: "\<forall>m\<in>set hist. 0 \<le> m"
      by (simp_all add: pocket_tracks_def)
    from False nn have c0: "0 \<le> Min (set hist)" by simp
    have "Min (set (hist @ [m])) = min m (Min (set hist))"
      using False by simp
    with tp(1,4) c c0 nn show ?thesis
      by (auto simp: pocket_tracks_def min_def)
  qed
qed

lemma pocket_tracks_passes:
  assumes "pocket_tracks hist (misclassify_count (pocket self))"
    and "k < length (completed_passes n pairs self)"
  shows "pocket_tracks (hist @ map fst (take (Suc k) (completed_passes n pairs self)))
           (misclassify_count (pocket (snd (completed_passes n pairs self ! k))))"
  using assms
proof (induction n arbitrary: self hist k)
  case 0
  then show ?case by simp
next
  case (Suc n)
  obtain r s1 where tp: "train_pass pairs self = (r, s1)"
    by (cases "train_pass pairs self")
  show ?case
  proof (cases r)
    case (Inl e)
    with tp Suc.prems show ?thesis by simp
  next
    case (Inr m)
    with tp Suc.prems(1) have t1: "pocket_tracks (hist @ [m]) (misclassify_count (pocket s1))"
      by (auto intro: pocket_tracks_pass)
    show ?thesis
    proof (cases k)
      case 0
      with tp Inr t1 show ?thesis by simp
    next
      case (Suc j)
      with tp Inr Suc.prems(2) have m: "m \<noteq> 0"
        by (auto split: if_splits)
      with tp Inr have cp: "completed_passes (Suc n) pairs self
          = (m, s1) # completed_passes n pairs (append_record s1)" by simp
      from cp Suc Suc.prems(2) have j: "j < length (completed_passes n pairs (append_record s1))"
        by simp
      from t1 have "pocket_tracks (hist @ [m]) (misclassify_count (pocket (append_record s1)))"
        by (simp add: append_record_fields)
      from Suc.IH [OF this j] cp Suc show ?thesis by simp
    qed
  qed
qed

lemma train_loop_pocket:
  "pocket (snd (train_loop n pairs self)) =
     (if completed_passes n pairs self = [] then pocket self
      else pocket (snd (last (completed_passes n pairs self))))"
proof (induction n arbitrary: self)
  case 0
  then show ?case by simp
next
  case (Suc n)
  obtain r s1 where tp: "train_pass pairs self = (r, s1)"
    by (cases "train_pass pairs self")
  show ?case
  proof (cases r)
    case (Inl e)
    with tp train_pass_Inl(1) [of pairs self e s1] show ?thesis by simp
  next
    case (Inr m)
    show ?thesis
    proof (cases "m = 0")
      case True
      with tp Inr show ?thesis by simp
    next
      case False
      with tp Inr Suc.IH [of "append_record s1"] show ?thesis
        by (simp add: append_record_fields)
    qed
  qed
qed

lemma train_pocket:
  "pocket (snd (train self samples labels max_iterator)) =
     (if train_passes self samples labels max_iterator = [] then pocket self
      else pocket (snd (last (train_passes self samples labels max_iterator))))"
  by (simp add: train_def train_passes_def train_loop_pocket split: sum.split)

lemma pocket_tracks_train_passes:
  assumes "pocket_tracks hist (misclassify_count (pocket self))"
    and "k < length (train_passes self samples labels max_iterator)"
  shows "pocket_tracks (hist @ map fst (take (Suc k) (train_passes self samples labels max_iterator)))
           (misclassify_count (pocket (snd (train_passes self samples labels max_iterator ! k))))"
  using assms
  by (auto simp: train_passes_def split: sum.splits intro: pocket_tracks_passes)

lemma pocket_tracks_train:
  assumes "pocket_tracks hist (misclassify_count (pocket self))"
  shows "pocket_tracks (hist @ map fst (train_passes self samples labels max_iterator))
           (misclassify_count (pocket (snd (train self samples labels max_iterator))))"
proof (cases "train_passes self samples labels max_iterator = []")
  case True
  with assms show ?thesis by (simp add: train_pocket)
next
  case False
  define ps where "ps = train_passes self samples labels max_iterator"
  from False have k: "length ps - 1 < length ps" by (simp add: ps_def)
  from False have l: "last ps = ps ! (length ps - 1)"
    by (simp add: ps_def last_conv_nth)
  from False have t: "take (Suc (length ps - 1)) ps = ps" by (simp add: ps_def)
  from pocket_tracks_train_passes [OF assms, of "length ps - 1" samples labels max_iterator] k t l False
  show ?thesis by (simp add: train_pocket ps_def)
qed

lemma pocket_tracks_calls:
  assumes "pocket_tracks hist (misclassify_count (pocket self))"
  shows "(\<forall>k<length (calls_passes calls self).
            pocket_tracks (hist @ map fst (take (Suc k) (calls_passes calls self)))
              (misclassify_count (pocket (snd (calls_passes calls self ! k)))))
         \<and> pocket_tracks (hist @ map fst (calls_passes calls self))
              (misclassify_count (pocket (train_calls calls self)))"
  using assms
proof (induction calls arbitrary: self hist)
  case Nil
  then show ?case by simp
next
  case (Cons c calls)
  obtain samples labels max_iterator where c: "c = (samples, labels, max_iterator)"
    by (cases c)
  define ps1 where "ps1 = train_passes self samples labels max_iterator"
  define self1 where "self1 = snd (train self samples labels max_iterator)"
  define ps2 where "ps2 = calls_passes calls self1"
  have ps: "calls_passes (c # calls) self = ps1 @ ps2"
    by (simp add: c ps1_def ps2_def self1_def)
  have tc: "train_calls (c # calls) self = train_calls calls self1"
    by (simp add: c self1_def)
  have inv1: "pocket_tracks (hist @ map fst ps1) (misclassify_count (pocket self1))"
    unfolding ps1_def self1_def by (rule pocket_tracks_train [OF Cons.prems])
  note IH = Cons.IH [OF inv1, folded ps2_def]
  have "pocket_tracks (hist @ map fst (take (Suc k) (ps1 @ ps2)))
          (misclassify_count (pocket (snd ((ps1 @ ps2) ! k))))" if k: "k < length (ps1 @ ps2)" for k
  proof (cases "k < length ps1")
    case True
    with pocket_tracks_train_passes [OF Cons.prems, of k samples labels max_iterator]
    show ?thesis by (simp add: ps1_def nth_append)
  next
    case False
    with k have "k - length ps1 < length ps2" by simp
    with IH have "pocket_tracks ((hist @ map fst ps1) @ map fst (take (Suc (k - length ps1)) ps2))
              (misclassify_count (pocket (snd (ps2 ! (k - length ps1)))))" by blast
    moreover from False have "take (Suc k) (ps1 @ ps2) = ps1 @ take (Suc (k - length ps1)) ps2"
      by (simp add: Suc_diff_le)
    ultimately show ?thesis using False by (simp add: nth_append)
  qed
  moreover from IH have "pocket_tracks (hist @ map fst (ps1 @ ps2))
              (misclassify_count (pocket (train_calls calls self1)))" by simp
  ultimately show ?case unfolding ps tc by blast
qed

text \<open>
  Claim C3. Take a freshly constructed classifier and any sequence of calls of \<open>train\<close>,
  and let \<open>ps\<close> be the passes they complete, in order. After each of them the pocket's
  count is the minimum of the misclassification counts of the passes completed so far,
  hence 0 as soon as one of them had none; from one completed pass to the next
  the count does not increase; and after the last call it is still that minimum.
\<close>

theorem pocket_count_is_minimum:
  assumes "init d cl = Inr self0" and "ps = calls_passes calls self0"
  shows "(\<forall>k<length ps. misclassify_count (pocket (snd (ps ! k)))
                          = Min (set (map fst (take (Suc k) ps))))
         \<and> (\<forall>k<length ps. 0 \<in> set (map fst (take (Suc k) ps))
                \<longrightarrow> misclassify_count (pocket (snd (ps ! k))) = 0)
         \<and> (\<forall>k. Suc k < length ps
                \<longrightarrow> misclassify_count (pocket (snd (ps ! Suc k)))
                      \<le> misclassify_count (pocket (snd (ps ! k))))
         \<and> (ps \<noteq> [] \<longrightarrow> misclassify_count (pocket (train_calls calls self0))
                              = Min (set (map fst ps)))"
proof -
  have "pocket_tracks [] (misclassify_count (pocket self0))"
    using init_fields(3) [OF assms(1)] by (simp add: pocket_tracks_def)
  note tracks = pocket_tracks_calls [OF this, of calls, folded assms(2)]
  have each: "pocket_tracks (map fst (take (Suc k) ps))
                (misclassify_count (pocket (snd (ps ! k))))" if "k < length ps" for k
    using tracks that by simp
  have final: "pocket_tracks (map fst ps) (misclassify_count (pocket (train_calls calls self0)))"
    using tracks by simp
  have mn: "misclassify_count (pocket (snd (ps ! k))) = Min (set (map fst (take (Suc k) ps)))"
    if "k < length ps" for k
  proof -
    from that have "map fst (take (Suc k) ps) \<noteq> []" by (cases ps) auto
    with each [OF that] show ?thesis by (simp add: pocket_tracks_def)
  qed
  have zero: "misclassify_count (pocket (snd (ps ! k))) = 0"
    if "k < length ps" and "0 \<in> set (map fst (take (Suc k) ps))" for k
  proof -
    let ?S = "set (map fst (take (Suc k) ps))"
    from each [OF that(1)] have nn: "\<forall>m\<in>?S. 0 \<le> m" by (simp add: pocket_tracks_def)
    from that(2) have "Min ?S \<le> 0" by (intro Min_le) auto
    moreover from that(2) have "Min ?S \<in> ?S" by (intro Min_in) auto
    with nn have "0 \<le> Min ?S" by blast
    ultimately show ?thesis using mn [OF that(1)] by simp
  qed
  have mono: "misclassify_count (pocket (snd (ps ! Suc k))) \<le> misclassify_count (pocket (snd (ps ! k)))"
    if "Suc k < length ps" for k
  proof -
    from that have k: "k < length ps" by simp
    have "set (take (Suc k) ps) \<subseteq> set (take (Suc (Suc k)) ps)"
      by (rule set_take_subset_set_take) simp
    then have sub: "set (map fst (take (Suc k) ps)) \<subseteq> set (map fst (take (Suc (Suc k)) ps))"
      by auto
    from k have ne: "set (map fst (take (Suc k) ps)) \<noteq> {}" by (cases ps) auto
    have "Min (set (map fst (take (Suc (Suc k)) ps))) \<le> Min (set (map fst (take (Suc k) ps)))"
      by (rule Min_antimono [OF sub ne]) simp
    with mn [OF that] mn [OF k] show ?thesis by simp
  qed
  have fin: "misclassify_count (pocket (train_calls calls self0)) = Min (set (map fst ps))"
    if "ps \<noteq> []"
    using final that by (simp add: pocket_tracks_def)
  from mn zero mono fin show ?thesis by blast
qed

theorem pocket_count_is_minimum_witness:
  "map (\<lambda>(m, s). (m, misclassify_count (pocket s)))
     (calls_passes [([[1], [2]], [''B'', ''A''], 3), ([[1], [2]], [''B'', ''A''], 2)]
        (projr (init 1 (''A'', ''B''))))
     = [(2, 2), (1, 1), (2, 1), (1, 1), (2, 1)]
   \<and> misclassify_count (pocket
        (train_calls [([[1], [2]], [''B'', ''A''], 3), ([[1], [2]], [''B'', ''A''], 2)]
           (projr (init 1 (''A'', ''B''))))) = 1"
proof -
  have i: "init 1 (''A'', ''B'') = Inr (projr (init 1 (''A'', ''B'')))"
    by (simp add: init_def)
  from pocket_count_is_minimum [OF i refl,
      of "[([[1], [2]], [''B'', ''A''], 3), ([[1], [2]], [''B'', ''A''], 2)]"]
  show ?thesis
    by (simp add: run_defs)
qed

subsection \<open>The pocket's weights\<close>

text \<open>
  The first pass of a fresh classifier always replaces the pocket, and the replacement
  stores the address of the weight array. From then on the pocket's field and the
  classifier's field name one array.
\<close>

lemma train_pass_shares:
  assumes "train_pass pairs self = (Inr m, self1)"
    and "misclassify_count (pocket self) = - 1 \<or> best_weights (pocket self) = weights self"
  shows "best_weights (pocket self1) = weights self1"
  using train_pass_Inr(3,5) [OF assms(1)] assms(2) by auto

text \<open>
  Claim C1 does not hold of the code. A fresh classifier with one attribute is trained
  for two passes on the samples \<open>[1]\<close> and \<open>[2]\<close>, labelled with the first and the second
  class label. The first pass misclassifies one sample and replaces the pocket; the
  weights are then \<open>[-2, -4]\<close>. The second pass misclassifies one sample too, so the
  pocket is not replaced (its count stays 1), and the updates of that pass leave the
  weights at \<open>[0, -2]\<close>, which is what the pocket's \<open>best_weights\<close> now reads.
\<close>

theorem pocket_shares_weight_array:
  "map (\<lambda>(m, s). (m, misclassify_count (pocket s), arrays s (best_weights (pocket s))))
     (train_passes (projr (init 1 (''A'', ''B''))) [[1], [2]] [''A'', ''B''] 2)
     = [(1, 1, [- 2, - 4]), (1, 1, [0, - 2])]
   \<and> arrays (snd (train (projr (init 1 (''A'', ''B''))) [[1], [2]] [''A'', ''B''] 2))
        (best_weights (pocket (snd (train (projr (init 1 (''A'', ''B''))) [[1], [2]] [''A'', ''B''] 2))))
     = [0, - 2]"
  by (simp add: run_defs)

subsection \<open>Separable data\<close>

text \<open>
  Claim C5, as amended. On the two-cluster data set of the class docstring, with the
  first six samples labelled with the first class label and the last six with the second,
  \<open>train\<close> with \<open>max_iterator = 10\<close> returns after four passes, the fourth with zero
  misclassifications, and \<open>classify\<close> on the training samples then returns the
  training labels.
\<close>

theorem example_learnt_within_ten_passes:
  assumes "L0 \<noteq> L1"
    and "labels = [L0, L0, L0, L0, L0, L0, L1, L1, L1, L1, L1, L1]"
    and "init 4 (L0, L1) = Inr self"
  shows "fst (train self example_samples labels 10) = None
         \<and> map fst (train_passes self example_samples labels 10) = [1, 3, 1, 0]
         \<and> classify (snd (train self example_samples labels 10)) example_samples = Inr labels"
proof -
  from assms(3) have self: "self = projr (init 4 (L0, L1))" by simp
  show ?thesis
    unfolding self assms(2) using assms(1)
    by (simp add: run_defs example_samples_def)
qed

theorem example_learnt_within_ten_passes_witness:
  "fst (train (projr (init 4 (''A'', ''B''))) example_samples
         [''A'', ''A'', ''A'', ''A'', ''A'', ''A'', ''B'', ''B'', ''B'', ''B'', ''B'', ''B''] 10) = None
   \<and> map fst (train_passes (projr (init 4 (''A'', ''B''))) example_samples
         [''A'', ''A'', ''A'', ''A'', ''A'', ''A'', ''B'', ''B'', ''B'', ''B'', ''B'', ''B''] 10)
       = [1, 3, 1, 0]
   \<and> classify (snd (train (projr (init 4 (''A'', ''B''))) example_samples
         [''A'', ''A'', ''A'', ''A'', ''A'', ''A'', ''B'', ''B'', ''B'', ''B'', ''B'', ''B''] 10))
       example_samples
       = Inr [''A'', ''A'', ''A'', ''A'', ''A'', ''A'', ''B'', ''B'', ''B'', ''B'', ''B'', ''B'']"
proof -
  have i: "init 4 (''A'', ''B'') = Inr (projr (init 4 (''A'', ''B'')))"
    by (simp add: init_def)
  have d: "''A'' \<noteq> ''B''"
    by simp
  from example_learnt_within_ten_passes [OF d refl i] show ?thesis by blast
qed

text \<open>
  The claim as stated, for every separable data set, fails on two samples with two
  attributes. The boundary with normal \<open>(21, -20)\<close> through the origin separates them,
  yet each of the ten passes misclassifies a sample, and \<open>classify\<close> afterwards returns
  the second label for the first sample.
\<close>

theorem separable_not_learnt_in_ten_passes:
  "separated_by [21, - 20] 0 (''A'', ''B'') [[10, 10], [10, 11]] [''A'', ''B'']
   \<and> fst (train (projr (init 2 (''A'', ''B''))) [[10, 10], [10, 11]] [''A'', ''B''] 10) = None
   \<and> map fst (train_passes (projr (init 2 (''A'', ''B''))) [[10, 10], [10, 11]] [''A'', ''B''] 10)
       = [1, 1, 2, 2, 2, 2, 2, 2, 2, 2]
   \<and> classify (snd (train (projr (init 2 (''A'', ''B''))) [[10, 10], [10, 11]] [''A'', ''B''] 10))
        [[10, 10], [10, 11]] = Inr [''B'', ''B'']"
  by (simp add: run_defs separated_by_def)

text \<open>
  Reaching a pass with zero misclassifications does not by itself make \<open>classify\<close>
  return the training labels: the passes decide by \<open>dot(sample, weights[1:])\<close>, without
  the bias, and \<open>classify\<close> adds \<open>weights[0]\<close>. On the samples \<open>[1]\<close> and
  \<open>[-0.5]\<close>, labelled with the second and the first class label, the second pass has
  no misclassification, and \<open>classify\<close> returns the second label for both.
\<close>

lemma zero_pass_and_classify_differ:
  "map fst (train_passes (projr (init 1 (''A'', ''B''))) [[1], [- 0.5]] [''B'', ''A''] 10) = [1, 0]
   \<and> classify (snd (train (projr (init 1 (''A'', ''B''))) [[1], [- 0.5]] [''B'', ''A''] 10))
        [[1], [- 0.5]] = Inr [''B'', ''B'']"
  by (simp add: run_defs)

subsection \<open>The docstring's scenario\<close>

text \<open>
  Claim C6. With four attributes and the class labels \<open>(-1, 1)\<close>, after \<open>train\<close> on the
  twelve samples and labels of the docstring with \<open>max_iterator = 10\<close>, which returns
  normally, \<open>classify\<close> on the two new samples returns \<open>[1, -1]\<close>.
\<close>

theorem example_scenario:
  "fst (train (projr (init 4 (- 1 :: int, 1))) example_samples example_labels 10) = None
   \<and> classify (snd (train (projr (init 4 (- 1 :: int, 1))) example_samples example_labels 10))
        example_new_data = Inr [1, - 1]"
  by (simp add: run_defs example_samples_def example_labels_def example_new_data_def)

end
